theory Spec2Isabelle
  imports Main "HOL-Library.Sublist" "HOL-Library.Multiset"
begin

section \<open>Strings\<close>

text \<open>
  A Python \<open>str\<close> is a sequence of Unicode code points, so the model's strings are
  lists of code points (\<open>nat\<close>): \<open>str.strip\<close> looks at code points, not at bytes.
  \<open>u\<close> turns a literal of the theory into such a string.
\<close>

type_synonym str = "nat list"

definition u :: "string \<Rightarrow> str" where
  "u s = map of_char s"

definition newline :: nat where
  "newline = 10"

text \<open>
  The white space of \<open>str.strip()\<close> with no argument: the code points Python's
  \<open>str.isspace\<close> accepts (U+0009..U+000D, U+001C..U+0020, U+0085, U+00A0, U+1680,
  U+2000..U+200A, U+2028, U+2029, U+202F, U+205F, U+3000).
\<close>

definition isspace :: "nat \<Rightarrow> bool" where
  "isspace c \<longleftrightarrow>
     (9 \<le> c \<and> c \<le> 13) \<or> (28 \<le> c \<and> c \<le> 32) \<or> c = 133 \<or> c = 160 \<or> c = 5760 \<or>
     (8192 \<le> c \<and> c \<le> 8202) \<or> c = 8232 \<or> c = 8233 \<or> c = 8239 \<or> c = 8287 \<or> c = 12288"

text \<open>\<open>s.lstrip()\<close>, \<open>s.rstrip()\<close> and \<open>s.strip()\<close>: white space goes at both ends.\<close>

definition lstrip :: "str \<Rightarrow> str" where
  "lstrip s = dropWhile isspace s"

definition rstrip :: "str \<Rightarrow> str" where
  "rstrip s = rev (dropWhile isspace (rev s))"

definition strip :: "str \<Rightarrow> str" where
  "strip s = rstrip (lstrip s)"

text \<open>\<open>str(n)\<close> for a length: the decimal digits of \<open>n\<close>.\<close>

fun str_nat :: "nat \<Rightarrow> str" where
  "str_nat n = (if n < 10 then [48 + n] else str_nat (n div 10) @ [48 + n mod 10])"

declare str_nat.simps [simp del]

text \<open>
  \<open>os.path.join(a, b)\<close> of \<open>posixpath\<close>: an absolute \<open>b\<close> replaces \<open>a\<close>; otherwise
  one \<open>/\<close> stands between the two unless \<open>a\<close> is empty or ends in one.
\<close>

type_synonym path = str

definition path_join :: "path \<Rightarrow> path \<Rightarrow> path" where
  "path_join a b =
     (if prefix (u ''/'') b then b
      else if a = [] \<or> suffix (u ''/'') a then a @ b
      else a @ u ''/'' @ b)"

section \<open>Files and the console\<close>

text \<open>
  What the program can see of a file, opened in text mode with the UTF-8 encoding:
  \<^item> \<open>Readable t\<close>: \<open>read()\<close> returns the text \<open>t\<close> (decoded, line ends translated to
    \<open>\n\<close> as text mode does), and \<open>readline()\<close> its first line;
  \<^item> \<open>HeadOnly t e\<close>: the file starts with the text \<open>t\<close> and \<open>readline()\<close> returns the
    first line of \<open>t\<close>, but \<open>read()\<close> raises the exception with message \<open>e\<close> (bytes
    further down do not decode);
  \<^item> \<open>Unreadable e e'\<close>: nothing of the file can be read (no such file, a directory,
    no permission, bytes that do not decode): \<open>open\<close> followed by \<open>readline()\<close> raises
    the exception with message \<open>e\<close>, \<open>open\<close> followed by \<open>read()\<close> the one with message
    \<open>e'\<close>. The two messages can differ: a decoding error names the position it met.
\<close>

type_synonym exn = str

datatype file_node = Readable str | HeadOnly str exn | Unreadable exn exn

text \<open>
  The world of a run: the file behind every path, the paths that cannot be opened for
  writing (with the exception \<open>open(path, 'w')\<close> raises), what \<open>glob.glob\<close> returns for
  a pattern, the lines that standard output cannot encode (with the exception \<open>print\<close>
  raises for them: a path with a lone surrogate on a strict UTF-8 console, say), and
  the lines printed so far.
\<close>

record world =
  files :: "path \<Rightarrow> file_node"
  write_error :: "path \<Rightarrow> exn option"
  glob :: "str \<Rightarrow> path list"
  stdout_error :: "str \<Rightarrow> exn option"
  console :: "str list"

text \<open>
  A step of the program returns the exception that left it, \<open>None\<close> when it returned
  normally, together with the world it leaves. \<open>print(line)\<close> raises when standard
  output cannot encode the line, and prints nothing then.
\<close>

definition print :: "str \<Rightarrow> world \<Rightarrow> exn option \<times> world" where
  "print line w =
     (case stdout_error w line of
        Some e \<Rightarrow> (Some e, w)
      | None \<Rightarrow> (None, w\<lparr>console := console w @ [line]\<rparr>))"

text \<open>\<open>f.readline()\<close> on a text: up to and including the first \<open>\n\<close>, or all of it.\<close>

definition readline :: "str \<Rightarrow> str" where
  "readline t =
     (case dropWhile (\<lambda>c. c \<noteq> newline) t of
        [] \<Rightarrow> t
      | _ # _ \<Rightarrow> takeWhile (\<lambda>c. c \<noteq> newline) t @ [newline])"

text \<open>\<open>open(path, 'r', encoding='utf-8')\<close> followed by \<open>readline()\<close>, or by \<open>read()\<close>.\<close>

fun open_readline :: "file_node \<Rightarrow> exn + str" where
  "open_readline (Readable t) = Inr (readline t)"
| "open_readline (HeadOnly t e) = Inr (readline t)"
| "open_readline (Unreadable e e') = Inl e"

fun open_read :: "file_node \<Rightarrow> exn + str" where
  "open_read (Readable t) = Inr t"
| "open_read (HeadOnly t e) = Inl e"
| "open_read (Unreadable e e') = Inl e'"

section \<open>TextFileCombiner\<close>

record combiner =
  input_dir :: path
  output_dir :: path
  url_patterns :: "(str \<times> str) list"

text \<open>
  \<open>__init__\<close>: the two directories and the table of URL patterns, a dict literal whose
  items come in the order written. It also creates the output directory when that is
  missing; an output directory that cannot be written to shows in the model as output
  files that cannot be opened (\<open>write_error\<close>).
\<close>

definition TextFileCombiner :: "path \<Rightarrow> path \<Rightarrow> combiner" where
  "TextFileCombiner input_dir' output_dir' =
     \<lparr>input_dir = input_dir', output_dir = output_dir',
      url_patterns =
        [(u ''core-nodes'', u ''https://docs.n8n.io/integrations/builtin/core-nodes/''),
         (u ''app-nodes'', u ''https://docs.n8n.io/integrations/builtin/app-nodes/''),
         (u ''trigger-nodes'', u ''https://docs.n8n.io/integrations/builtin/trigger-nodes/''),
         (u ''cluster-nodes'', u ''https://docs.n8n.io/integrations/builtin/cluster-nodes/''),
         (u ''credentials'', u ''https://docs.n8n.io/integrations/builtin/credentials/'')]\<rparr>"

subsection \<open>get_source_url\<close>

text \<open>
  \<open>re.match(r"Source URL: (.+)", s)\<close> and its \<open>group(1)\<close>: the pattern is matched at
  the start of \<open>s\<close>; \<open>.\<close> is any character but \<open>\n\<close> and \<open>+\<close> is greedy, so the group
  is the longest run without \<open>\n\<close> after the marker, and it must not be empty.
\<close>

definition re_match_source_url :: "str \<Rightarrow> str option" where
  "re_match_source_url s =
     (if prefix (u ''Source URL: '') s
      then (let rest = takeWhile (\<lambda>c. c \<noteq> newline) (drop (length (u ''Source URL: '')) s)
            in if rest = [] then None else Some rest)
      else None)"

text \<open>
  \<open>get_source_url\<close> returns \<open>Inr\<close> of what the Python returns. An exception of the
  \<open>try\<close> block is caught; the \<open>print\<close> of the handler is outside any \<open>try\<close>, so an
  exception it raises leaves \<open>get_source_url\<close> (\<open>Inl\<close>).
\<close>

definition get_source_url :: "world \<Rightarrow> path \<Rightarrow> (exn + str option) \<times> world" where
  "get_source_url w file_path =
     (case open_readline (files w file_path) of
        Inr line \<Rightarrow> (Inr (re_match_source_url (strip line)), w)
      | Inl e \<Rightarrow>
          (case print (u ''Error reading file '' @ file_path @ u '': '' @ e) w of
             (Some e', w') \<Rightarrow> (Inl e', w')
           | (None, w') \<Rightarrow> (Inr None, w')))"

subsection \<open>get_file_group\<close>

text \<open>The loop over \<open>url_patterns.items()\<close>; \<open>url.startswith(pattern)\<close> is \<open>prefix\<close>.\<close>

fun first_group :: "(str \<times> str) list \<Rightarrow> str \<Rightarrow> str option" where
  "first_group [] url = None"
| "first_group ((group_name, pattern) # rest) url =
     (if prefix pattern url then Some group_name else first_group rest url)"

text \<open>\<open>not url\<close> holds of \<open>None\<close> and of the empty string.\<close>

definition get_file_group :: "combiner \<Rightarrow> str option \<Rightarrow> str option" where
  "get_file_group c url =
     (case url of
        None \<Rightarrow> None
      | Some s \<Rightarrow> if s = [] then None else first_group (url_patterns c) s)"

subsection \<open>combine_files\<close>

text \<open>
  A member of a bucket is the pair \<open>(file_path, url)\<close>. \<open>grouped_files\<close> is a
  \<open>defaultdict(list)\<close>: its items keep the order in which the groups were first met.
  \<open>append_to d k v\<close> is \<open>d[k].append(v)\<close>.
\<close>

type_synonym member = "path \<times> str option"

fun append_to :: "(str \<times> member list) list \<Rightarrow> str \<Rightarrow> member \<Rightarrow> (str \<times> member list) list" where
  "append_to [] k v = [(k, [v])]"
| "append_to ((k', vs) # d) k v =
     (if k' = k then (k', vs @ [v]) # d else (k', vs) # append_to d k v)"

text \<open>
  The first loop. \<open>if group:\<close> is false for \<open>None\<close> and for an empty group name. An
  exception that leaves \<open>get_source_url\<close> ends the loop.
\<close>

fun group_files ::
  "combiner \<Rightarrow> path list \<Rightarrow> (str \<times> member list) list \<Rightarrow> member list \<Rightarrow> world \<Rightarrow>
   exn option \<times> (str \<times> member list) list \<times> member list \<times> world" where
  "group_files c [] grouped_files other_files w = (None, grouped_files, other_files, w)"
| "group_files c (file_path # text_files) grouped_files other_files w =
     (case get_source_url w file_path of
        (Inl e, w') \<Rightarrow> (Some e, grouped_files, other_files, w')
      | (Inr url, w') \<Rightarrow>
          (case get_file_group c url of
             Some group' \<Rightarrow>
               if group' \<noteq> []
               then group_files c text_files (append_to grouped_files group' (file_path, url))
                      other_files w'
               else group_files c text_files grouped_files (other_files @ [(file_path, url)]) w'
           | None \<Rightarrow>
               group_files c text_files grouped_files (other_files @ [(file_path, url)]) w'))"

text \<open>The separator written before and after a file's content: \<open>f"\n{'=' * 80}\n"\<close>.\<close>

definition separator :: str where
  "separator = [newline] @ replicate 80 (of_char (CHR ''='')) @ [newline]"

text \<open>
  The inner loop over the members of one bucket. \<open>written\<close> is what has gone to
  \<open>out_f\<close> so far. A member whose \<open>open\<close> or \<open>read()\<close> raises writes nothing and
  prints a line; an exception of that \<open>print\<close> ends the loop. A write to the open
  \<open>out_f\<close> does not fail in the model.
\<close>

fun copy_files :: "member list \<Rightarrow> str \<Rightarrow> world \<Rightarrow> exn option \<times> str \<times> world" where
  "copy_files [] written w = (None, written, w)"
| "copy_files ((file_path, url) # members) written w =
     (case open_read (files w file_path) of
        Inr content \<Rightarrow> copy_files members (written @ separator @ content @ separator) w
      | Inl e \<Rightarrow>
          (case print (u ''Error processing file '' @ file_path @ u '': '' @ e) w of
             (Some e', w') \<Rightarrow> (Some e', written, w')
           | (None, w') \<Rightarrow> copy_files members written w'))"

text \<open>
  \<open>with open(output_file, 'w', encoding='utf-8') as out_f:\<close> and its body. An
  \<open>open\<close> that raises is not caught: the exception leaves \<open>combine_files\<close>. Opening
  truncates the file; what is written is buffered and reaches the file when the
  \<open>with\<close> block closes it, also when an exception leaves the block (Python flushes
  earlier once its buffer is full, which only a member that is the output file itself
  could observe).
\<close>

definition write_combined :: "path \<Rightarrow> str \<Rightarrow> member list \<Rightarrow> world \<Rightarrow> exn option \<times> world" where
  "write_combined output_file header members w =
     (case write_error w output_file of
        Some e \<Rightarrow> (Some e, w)
      | None \<Rightarrow>
          (case copy_files members header (w\<lparr>files := (files w)(output_file := Readable [])\<rparr>) of
             (r, written, w') \<Rightarrow>
               (r, w'\<lparr>files := (files w')(output_file := Readable written)\<rparr>)))"

text \<open>
  The names and headers of the output files: \<open>os.path.join(self.output_dir,
  f"{group_name}.txt")\<close> with \<open>f"### Combined Content for {group_name} ###\n\n"\<close>, and
  \<open>os.path.join(self.output_dir, "other_content.txt")\<close> with
  \<open>"### Content from Other URLs ###\n\n"\<close>.
\<close>

definition group_output_file :: "combiner \<Rightarrow> str \<Rightarrow> path" where
  "group_output_file c group_name = path_join (output_dir c) (group_name @ u ''.txt'')"

definition group_header :: "str \<Rightarrow> str" where
  "group_header group_name =
     u ''### Combined Content for '' @ group_name @ u '' ###'' @ [newline, newline]"

definition other_output_file :: "combiner \<Rightarrow> path" where
  "other_output_file c = path_join (output_dir c) (u ''other_content.txt'')"

definition other_header :: str where
  "other_header = u ''### Content from Other URLs ###'' @ [newline, newline]"

text \<open>The second loop, over \<open>grouped_files.items()\<close>.\<close>

fun write_groups :: "combiner \<Rightarrow> (str \<times> member list) list \<Rightarrow> world \<Rightarrow> exn option \<times> world" where
  "write_groups c [] w = (None, w)"
| "write_groups c ((group_name, members) # grouped_files) w =
     (case print (u ''Creating combined file for '' @ group_name @ u '' with '' @
                  str_nat (length members) @ u '' files'') w of
        (Some e, w') \<Rightarrow> (Some e, w')
      | (None, w') \<Rightarrow>
          (case write_combined (group_output_file c group_name) (group_header group_name)
                  members w' of
             (Some e, w'') \<Rightarrow> (Some e, w'')
           | (None, w'') \<Rightarrow> write_groups c grouped_files w''))"

text \<open>\<open>if other_files:\<close> and the block under it.\<close>

definition write_other :: "combiner \<Rightarrow> member list \<Rightarrow> world \<Rightarrow> exn option \<times> world" where
  "write_other c other_files w =
     (if other_files \<noteq> []
      then (case print (u ''Creating file for other content with '' @
                        str_nat (length other_files) @ u '' files'') w of
              (Some e, w') \<Rightarrow> (Some e, w')
            | (None, w') \<Rightarrow>
                write_combined (other_output_file c) other_header other_files w')
      else (None, w))"

text \<open>The summary printed at the end.\<close>

fun print_groups :: "(str \<times> member list) list \<Rightarrow> world \<Rightarrow> exn option \<times> world" where
  "print_groups [] w = (None, w)"
| "print_groups ((group_name, members) # grouped_files) w =
     (case print (u ''- '' @ group_name @ u '': '' @ str_nat (length members) @ u '' files'') w of
        (Some e, w') \<Rightarrow> (Some e, w')
      | (None, w') \<Rightarrow> print_groups grouped_files w')"

definition print_summary ::
  "(str \<times> member list) list \<Rightarrow> member list \<Rightarrow> world \<Rightarrow> exn option \<times> world" where
  "print_summary grouped_files other_files w =
     (case print ([newline] @ u ''Combination complete. Summary:'') w of
        (Some e, w') \<Rightarrow> (Some e, w')
      | (None, w') \<Rightarrow>
          (case print_groups grouped_files w' of
             (Some e, w'') \<Rightarrow> (Some e, w'')
           | (None, w'') \<Rightarrow>
               print (u ''- other_content: '' @ str_nat (length other_files) @ u '' files'') w''))"

text \<open>
  \<open>combine_files\<close>: the exception that left it (\<open>None\<close> when it returned) and the
  world it leaves behind.
\<close>

definition combine_files :: "combiner \<Rightarrow> world \<Rightarrow> exn option \<times> world" where
  "combine_files c w =
     (let text_files = glob w (path_join (input_dir c) (u ''*.txt''))
      in case print (u ''Found '' @ str_nat (length text_files) @
                     u '' text files to process'') w of
           (Some e, w0) \<Rightarrow> (Some e, w0)
         | (None, w0) \<Rightarrow>
             (case group_files c text_files [] [] w0 of
                (Some e, grouped_files, other_files, w1) \<Rightarrow> (Some e, w1)
              | (None, grouped_files, other_files, w1) \<Rightarrow>
                  (case write_groups c grouped_files w1 of
                     (Some e, w2) \<Rightarrow> (Some e, w2)
                   | (None, w2) \<Rightarrow>
                       (case write_other c other_files w2 of
                          (Some e, w3) \<Rightarrow> (Some e, w3)
                        | (None, w3) \<Rightarrow> print_summary grouped_files other_files w3))))"

section \<open>Notions used in the statements\<close>

text \<open>
  The URL \<open>get_source_url\<close> returns for a path when it returns; when it raises there is
  none.
\<close>

definition source_url :: "world \<Rightarrow> path \<Rightarrow> str option" where
  "source_url w file_path =
     (case fst (get_source_url w file_path) of Inr url \<Rightarrow> url | Inl e \<Rightarrow> None)"

text \<open>
  The bucket the first loop of \<open>combine_files\<close> chooses for a path: \<open>Some g\<close> for the
  list \<open>grouped_files[g]\<close>, \<open>None\<close> for \<open>other_files\<close>.
\<close>

definition bucket_of :: "combiner \<Rightarrow> world \<Rightarrow> path \<Rightarrow> str option" where
  "bucket_of c w file_path =
     (case get_file_group c (source_url w file_path) of
        Some g \<Rightarrow> if g \<noteq> [] then Some g else None
      | None \<Rightarrow> None)"

text \<open>The members of a bucket, in the order of \<open>text_files\<close>.\<close>

definition bucket :: "combiner \<Rightarrow> world \<Rightarrow> path list \<Rightarrow> str option \<Rightarrow> member list" where
  "bucket c w text_files b =
     map (\<lambda>p. (p, source_url w p)) (filter (\<lambda>p. bucket_of c w p = b) text_files)"

text \<open>The files \<open>glob.glob\<close> finds for a combiner.\<close>

definition discovered :: "combiner \<Rightarrow> world \<Rightarrow> path list" where
  "discovered c w = glob w (path_join (input_dir c) (u ''*.txt''))"

text \<open>
  What the inner loop writes for a list of members, given the files: for each member
  that can be read, the separator, its content and the separator again.
\<close>

definition block :: "(path \<Rightarrow> file_node) \<Rightarrow> member \<Rightarrow> str" where
  "block fs m =
     (case open_read (fs (fst m)) of
        Inr content \<Rightarrow> separator @ content @ separator
      | Inl e \<Rightarrow> [])"

definition blocks :: "(path \<Rightarrow> file_node) \<Rightarrow> member list \<Rightarrow> str" where
  "blocks fs members = concat (map (block fs) members)"

text \<open>The value a dict of lists has at a key, empty when the key is missing.\<close>

definition lookup :: "(str \<times> member list) list \<Rightarrow> str \<Rightarrow> member list" where
  "lookup d k = (case map_of d k of None \<Rightarrow> [] | Some vs \<Rightarrow> vs)"

text \<open>
  The paths a run of \<open>combine_files\<close> opens for writing: the output file of every
  group that got a member, and \<open>other_content.txt\<close> when \<open>other_files\<close> is not empty.
\<close>

definition written_files :: "combiner \<Rightarrow> world \<Rightarrow> path set" where
  "written_files c w =
     {q. \<exists>g. q = group_output_file c g \<and> bucket c w (discovered c w) (Some g) \<noteq> []} \<union>
     {q. q = other_output_file c \<and> bucket c w (discovered c w) None \<noteq> []}"

text \<open>Every path a combiner can write to: one per group of its table, and the other file.\<close>

definition output_files :: "combiner \<Rightarrow> path set" where
  "output_files c = group_output_file c ` fst ` set (url_patterns c) \<union> {other_output_file c}"

section \<open>An example run\<close>

text \<open>
  A directory \<open>docs\<close> of seven files and a combiner that writes to \<open>combined_docs\<close>,
  as the entry point of the script sets it up. Files \<open>a\<close>, \<open>b\<close> and \<open>c\<close> are those of
  the end-to-end scenario of the specification; \<open>d\<close> has a first line that can be read
  and a body that cannot; \<open>e\<close> cannot be opened; the first line of \<open>f\<close> starts with
  two spaces; the first line of \<open>g\<close> stops after the marker. An earlier run has left
  \<open>trigger-nodes.txt\<close> in the output directory. Standard output prints every line (as
  with the error handler \<open>backslashreplace\<close>).
\<close>

definition example_files :: "path \<Rightarrow> file_node" where
  "example_files p =
     (if p = u ''docs/a.txt'' then
        Readable (u ''Source URL: https://docs.n8n.io/integrations/builtin/core-nodes/x'' @
                  [newline] @ u ''HELLO'')
      else if p = u ''docs/b.txt'' then
        Readable (u ''Source URL: https://docs.n8n.io/integrations/builtin/credentials/y'' @
                  [newline] @ u ''WORLD'')
      else if p = u ''docs/c.txt'' then Readable (u ''no source line here'')
      else if p = u ''docs/d.txt'' then
        HeadOnly (u ''Source URL: https://docs.n8n.io/integrations/builtin/core-nodes/z'' @
                  [newline])
                 (u ''invalid start byte'')
      else if p = u ''docs/e.txt'' then
        Unreadable (u ''Permission denied'') (u ''Permission denied'')
      else if p = u ''docs/f.txt'' then
        Readable (u ''  Source URL: https://docs.n8n.io/integrations/builtin/app-nodes/foo'' @
                  [newline] @ u ''FOO'')
      else if p = u ''docs/g.txt'' then Readable (u ''Source URL: '' @ [newline] @ u ''BAR'')
      else if p = u ''combined_docs/trigger-nodes.txt'' then Readable (u ''left by an earlier run'')
      else Unreadable (u ''No such file or directory'') (u ''No such file or directory''))"

definition example_world :: world where
  "example_world =
     \<lparr>files = example_files,
      write_error = (\<lambda>p. None),
      glob = (\<lambda>pattern.
        if pattern = u ''docs/*.txt''
        then [u ''docs/a.txt'', u ''docs/b.txt'', u ''docs/c.txt'', u ''docs/d.txt'',
              u ''docs/e.txt'', u ''docs/f.txt'', u ''docs/g.txt'']
        else []),
      stdout_error = (\<lambda>line. None),
      console = []\<rparr>"

definition example_combiner :: combiner where
  "example_combiner = TextFileCombiner (u ''docs'') (u ''combined_docs'')"

text \<open>
  A second run: the directory \<open>docs\<close> holds one file, whose name has a byte that is not
  UTF-8, so that \<open>glob.glob\<close> returns its path with the lone surrogate U+DCFF in it, and
  the file cannot be opened. Standard output is a strict UTF-8 stream: \<open>print\<close> raises
  \<open>UnicodeEncodeError\<close> for a line with a surrogate in it (the message is cut to its
  last words here).
\<close>

definition strict_utf8 :: "str \<Rightarrow> exn option" where
  "strict_utf8 line =
     (if list_ex (\<lambda>c. 55296 \<le> c \<and> c \<le> 57343) line then Some (u ''surrogates not allowed'')
      else None)"

definition surrogate_path :: path where
  "surrogate_path = u ''docs/bad'' @ [56575] @ u ''.txt''"

definition surrogate_world :: world where
  "surrogate_world =
     \<lparr>files = (\<lambda>p. Unreadable (u ''Permission denied'') (u ''Permission denied'')),
      write_error = (\<lambda>p. None),
      glob = (\<lambda>pattern. if pattern = u ''docs/*.txt'' then [surrogate_path] else []),
      stdout_error = strict_utf8,
      console = []\<rparr>"

text \<open>
  A third run, on the same directory and the same standard output: the file can be
  opened now and its first line read, but bytes further down do not decode, so that
  \<open>read()\<close> raises.
\<close>

definition surrogate_head_world :: world where
  "surrogate_head_world =
     \<lparr>files = (\<lambda>p. if p = surrogate_path
                     then HeadOnly (u ''no source line here'' @ [newline]) (u ''invalid start byte'')
                     else Unreadable (u ''No such file or directory'')
                            (u ''No such file or directory'')),
      write_error = (\<lambda>p. None),
      glob = (\<lambda>pattern. if pattern = u ''docs/*.txt'' then [surrogate_path] else []),
      stdout_error = strict_utf8,
      console = []\<rparr>"

section \<open>Notions of the claims about get_source_url\<close>



section \<open>Notions of the claims about combine_files\<close>

text \<open>
  The state of \<open>combine_files\<close> after its first loop: the exception that has ended the
  run by then (\<open>None\<close> when the loop is through), \<open>grouped_files\<close>, \<open>other_files\<close> and
  the world, in which only the console has grown.
\<close>

definition classified ::
  "combiner \<Rightarrow> world \<Rightarrow> exn option \<times> (str \<times> member list) list \<times> member list \<times> world" where
  "classified c w =
     (case print (u ''Found '' @ str_nat (length (discovered c w)) @
                  u '' text files to process'') w of
        (Some e, w0) \<Rightarrow> (Some e, [], [], w0)
      | (None, w0) \<Rightarrow> group_files c (discovered c w) [] [] w0)"



section \<open>The console and the frame of each step\<close>

lemma print_frame [simp]:
  "files (snd (print l w)) = files w"
  "write_error (snd (print l w)) = write_error w"
  "glob (snd (print l w)) = glob w"
  "stdout_error (snd (print l w)) = stdout_error w"
  by (simp_all add: print_def split: option.splits)

lemma print_console: "prefix (console w) (console (snd (print l w)))"
  by (simp add: print_def split: option.splits)

lemma print_ok: "stdout_error w l = None \<Longrightarrow> print l w = (None, w\<lparr>console := console w @ [l]\<rparr>)"
  by (simp add: print_def)

lemma print_raises: "stdout_error w l = Some e \<Longrightarrow> print l w = (Some e, w)"
  by (simp add: print_def)


lemma get_source_url_frame [simp]:
  "files (snd (get_source_url w p)) = files w"
  "write_error (snd (get_source_url w p)) = write_error w"
  "glob (snd (get_source_url w p)) = glob w"
  "stdout_error (snd (get_source_url w p)) = stdout_error w"
  by (simp_all add: get_source_url_def print_def split: sum.splits option.splits)

lemma get_source_url_console: "prefix (console w) (console (snd (get_source_url w p)))"
  by (simp add: get_source_url_def print_def split: sum.splits option.splits)

lemma source_url_eq:
  "source_url w p =
     (case open_readline (files w p) of
        Inr line \<Rightarrow> re_match_source_url (strip line)
      | Inl e \<Rightarrow> None)"
  by (simp add: source_url_def get_source_url_def print_def split: sum.splits option.splits)

lemma get_source_url_Inr: "fst (get_source_url w p) = Inr url \<Longrightarrow> url = source_url w p"
  by (simp add: source_url_def)


lemma source_url_cong: "files w p = files w' p \<Longrightarrow> source_url w p = source_url w' p"
  by (simp add: source_url_eq)


lemma bucket_cong: "files w = files w' \<Longrightarrow> bucket c w ps b = bucket c w' ps b"
  by (simp add: bucket_def bucket_of_def source_url_eq)

subsection \<open>The first loop\<close>

lemma lookup_Nil [simp]: "lookup [] k = []"
  by (simp add: lookup_def)

lemma lookup_append_to: "lookup (append_to d k v) k' = (if k' = k then lookup d k @ [v] else lookup d k')"
  by (induction d k v rule: append_to.induct) (auto simp: lookup_def)

lemma keys_append_to: "fst ` set (append_to d k v) = insert k (fst ` set d)"
  by (induction d k v rule: append_to.induct) auto

lemma distinct_append_to: "distinct (map fst d) \<Longrightarrow> distinct (map fst (append_to d k v))"
  by (induction d k v rule: append_to.induct) (auto simp: keys_append_to)

lemma nonempty_append_to: "(\<forall>(k', vs) \<in> set d. vs \<noteq> []) \<Longrightarrow> (\<forall>(k', vs) \<in> set (append_to d k v). vs \<noteq> [])"
  by (induction d k v rule: append_to.induct) auto


lemma bucket_Nil [simp]: "bucket c w [] b = []"
  by (simp add: bucket_def)

lemma bucket_Cons: "bucket c w (p # ps) b = (if bucket_of c w p = b then (p, source_url w p) # bucket c w ps b else bucket c w ps b)"
  by (simp add: bucket_def)


text \<open>One round of the first loop, by what \<open>get_source_url\<close> does and the bucket chosen.\<close>

lemma group_files_raises:
  "fst (get_source_url w p) = Inl e \<Longrightarrow>
     group_files c (p # ps) d0 o0 w = (Some e, d0, o0, snd (get_source_url w p))"
  by (cases "get_source_url w p") simp

lemma group_files_step:
  "fst (get_source_url w p) = Inr url \<Longrightarrow>
     group_files c (p # ps) d0 o0 w =
       (case bucket_of c w p of
          Some g \<Rightarrow> group_files c ps (append_to d0 g (p, source_url w p)) o0 (snd (get_source_url w p))
        | None \<Rightarrow> group_files c ps d0 (o0 @ [(p, source_url w p)]) (snd (get_source_url w p)))"
  by (cases "get_source_url w p")
     (simp add: bucket_of_def source_url_def split: option.splits)

lemma group_files_frame:
  "group_files c ps d0 o0 w = (r, d, ot, w') \<Longrightarrow>
     files w' = files w \<and> write_error w' = write_error w \<and> glob w' = glob w \<and>
     stdout_error w' = stdout_error w \<and> prefix (console w) (console w')"
proof (induction ps arbitrary: d0 o0 w)
  case Nil
  then show ?case by simp
next
  case (Cons p ps)
  let ?w1 = "snd (get_source_url w p)"
  have pc: "prefix (console w) (console ?w1)" by (rule get_source_url_console)
  show ?case
  proof (cases "fst (get_source_url w p)")
    case (Inl e)
    with Cons.prems have "w' = ?w1"
      by (simp add: group_files_raises del: group_files.simps)
    with pc show ?thesis by simp
  next
    case (Inr url)
    show ?thesis
    proof (cases "bucket_of c w p")
      case None
      with Cons.prems Inr have "group_files c ps d0 (o0 @ [(p, source_url w p)]) ?w1 = (r, d, ot, w')"
        by (simp add: group_files_step del: group_files.simps)
      from Cons.IH [OF this] pc show ?thesis
        by (auto intro: prefix_order.trans)
    next
      case (Some g)
      with Cons.prems Inr have "group_files c ps (append_to d0 g (p, source_url w p)) o0 ?w1 = (r, d, ot, w')"
        by (simp add: group_files_step del: group_files.simps)
      from Cons.IH [OF this] pc show ?thesis
        by (auto intro: prefix_order.trans)
    qed
  qed
qed

text \<open>
  A first loop that is through: its next round is the one of \<open>group_files_step\<close>.
\<close>

lemma group_files_through:
  assumes "group_files c (p # ps) d0 o0 w = (None, d, ot, w')"
  shows "(case bucket_of c w p of
            Some g \<Rightarrow> group_files c ps (append_to d0 g (p, source_url w p)) o0 (snd (get_source_url w p))
          | None \<Rightarrow> group_files c ps d0 (o0 @ [(p, source_url w p)]) (snd (get_source_url w p))) =
         (None, d, ot, w')"
proof (cases "fst (get_source_url w p)")
  case (Inl e)
  with assms show ?thesis
    by (simp add: group_files_raises del: group_files.simps)
next
  case (Inr url)
  with assms show ?thesis
    by (simp add: group_files_step del: group_files.simps)
qed

lemma group_files_buckets:
  "group_files c ps d0 o0 w = (None, d, ot, w') \<Longrightarrow>
     lookup d g = lookup d0 g @ bucket c w ps (Some g) \<and> ot = o0 @ bucket c w ps None"
proof (induction ps arbitrary: d0 o0 w)
  case Nil
  then show ?case by simp
next
  case (Cons p ps)
  let ?w1 = "snd (get_source_url w p)"
  have b: "bucket c ?w1 ps b = bucket c w ps b" for b
    by (rule bucket_cong) simp
  show ?case
  proof (cases "bucket_of c w p")
    case None
    with group_files_through [OF Cons.prems]
    have "group_files c ps d0 (o0 @ [(p, source_url w p)]) ?w1 = (None, d, ot, w')"
      by simp
    from Cons.IH [OF this] None show ?thesis
      by (simp add: b bucket_Cons)
  next
    case (Some g')
    with group_files_through [OF Cons.prems]
    have "group_files c ps (append_to d0 g' (p, source_url w p)) o0 ?w1 = (None, d, ot, w')"
      by simp
    from Cons.IH [OF this] Some show ?thesis
      by (simp add: b bucket_Cons lookup_append_to)
  qed
qed

lemma group_files_distinct:
  "group_files c ps d0 o0 w = (None, d, ot, w') \<Longrightarrow> distinct (map fst d0) \<Longrightarrow> distinct (map fst d)"
proof (induction ps arbitrary: d0 o0 w)
  case Nil
  then show ?case by simp
next
  case (Cons p ps)
  show ?case
  proof (cases "bucket_of c w p")
    case None
    with group_files_through [OF Cons.prems(1)]
    have "group_files c ps d0 (o0 @ [(p, source_url w p)]) (snd (get_source_url w p)) = (None, d, ot, w')"
      by simp
    from Cons.IH [OF this Cons.prems(2)] show ?thesis .
  next
    case (Some g')
    with group_files_through [OF Cons.prems(1)]
    have "group_files c ps (append_to d0 g' (p, source_url w p)) o0 (snd (get_source_url w p)) = (None, d, ot, w')"
      by simp
    from Cons.IH [OF this distinct_append_to [OF Cons.prems(2)]] show ?thesis .
  qed
qed

lemma group_files_nonempty:
  "group_files c ps d0 o0 w = (None, d, ot, w') \<Longrightarrow> \<forall>(k, vs) \<in> set d0. vs \<noteq> [] \<Longrightarrow>
     \<forall>(k, vs) \<in> set d. vs \<noteq> []"
proof (induction ps arbitrary: d0 o0 w)
  case Nil
  then show ?case by simp
next
  case (Cons p ps)
  show ?case
  proof (cases "bucket_of c w p")
    case None
    with group_files_through [OF Cons.prems(1)]
    have "group_files c ps d0 (o0 @ [(p, source_url w p)]) (snd (get_source_url w p)) = (None, d, ot, w')"
      by simp
    from Cons.IH [OF this Cons.prems(2)] show ?thesis .
  next
    case (Some g')
    with group_files_through [OF Cons.prems(1)]
    have "group_files c ps (append_to d0 g' (p, source_url w p)) o0 (snd (get_source_url w p)) = (None, d, ot, w')"
      by simp
    from Cons.IH [OF this nonempty_append_to [OF Cons.prems(2)]] show ?thesis .
  qed
qed


lemma group_files_urls:
  "group_files c ps d0 o0 w = (None, d, ot, w') \<Longrightarrow> p \<in> set ps \<Longrightarrow>
     fst (get_source_url w p) = Inr (source_url w p)"
proof (induction ps arbitrary: d0 o0 w)
  case Nil
  then show ?case by simp
next
  case (Cons q ps)
  let ?w1 = "snd (get_source_url w q)"
  have head: "fst (get_source_url w q) = Inr (source_url w q)"
  proof (cases "fst (get_source_url w q)")
    case (Inl e)
    with Cons.prems(1) show ?thesis
      by (simp add: group_files_raises del: group_files.simps)
  next
    case (Inr url)
    then show ?thesis by (simp add: source_url_def)
  qed
  show ?case
  proof (cases "p = q")
    case True
    with head show ?thesis by simp
  next
    case False
    with Cons.prems(2) have p: "p \<in> set ps" by simp
    obtain d' o' where "group_files c ps d' o' ?w1 = (None, d, ot, w')"
      using group_files_through [OF Cons.prems(1)] by (cases "bucket_of c w q") auto
    from Cons.IH [OF this p] have "fst (get_source_url ?w1 p) = Inr (source_url ?w1 p)" .
    moreover have "source_url ?w1 p = source_url w p" by (rule source_url_cong) simp
    moreover have "fst (get_source_url ?w1 p) = Inr x \<longleftrightarrow> fst (get_source_url w p) = Inr x" for x
      by (simp add: get_source_url_def print_def split: sum.splits option.splits)
    ultimately show ?thesis by simp
  qed
qed


subsection \<open>Writing one output file\<close>

lemma blocks_Nil [simp]: "blocks fs [] = []"
  by (simp add: blocks_def)




text \<open>One round of the inner loop.\<close>

lemma copy_files_Inr:
  "open_read (files w p) = Inr content \<Longrightarrow>
     copy_files ((p, url) # ms) acc w = copy_files ms (acc @ separator @ content @ separator) w"
  by simp

lemma copy_files_Inl:
  "open_read (files w p) = Inl e \<Longrightarrow>
     stdout_error w (u ''Error processing file '' @ p @ u '': '' @ e) = None \<Longrightarrow>
     copy_files ((p, url) # ms) acc w =
       copy_files ms acc
         (w\<lparr>console := console w @ [u ''Error processing file '' @ p @ u '': '' @ e]\<rparr>)"
  by (simp add: print_ok)

lemma copy_files_Inl_raises:
  "open_read (files w p) = Inl e \<Longrightarrow>
     stdout_error w (u ''Error processing file '' @ p @ u '': '' @ e) = Some e' \<Longrightarrow>
     copy_files ((p, url) # ms) acc w = (Some e', acc, w)"
  by (simp add: print_raises)

lemma copy_files_frame:
  "files (snd (snd (copy_files ms acc w))) = files w \<and>
   write_error (snd (snd (copy_files ms acc w))) = write_error w \<and>
   glob (snd (snd (copy_files ms acc w))) = glob w \<and>
   stdout_error (snd (snd (copy_files ms acc w))) = stdout_error w \<and>
   prefix (console w) (console (snd (snd (copy_files ms acc w))))"
proof (induction ms arbitrary: acc w)
  case Nil
  show ?case by simp
next
  case (Cons a ms)
  obtain p url where a: "a = (p, url)" by (cases a)
  show ?case
  proof (cases "open_read (files w p)")
    case (Inr content)
    show ?thesis
      unfolding a copy_files_Inr [OF Inr] by (rule Cons.IH)
  next
    case (Inl e)
    let ?l = "u ''Error processing file '' @ p @ u '': '' @ e"
    show ?thesis
    proof (cases "stdout_error w ?l")
      case None
      let ?w1 = "w\<lparr>console := console w @ [?l]\<rparr>"
      from Cons.IH [of acc ?w1] show ?thesis
        unfolding a copy_files_Inl [OF Inl None]
        by (auto dest: append_prefixD)
    next
      case (Some e')
      show ?thesis
        unfolding a copy_files_Inl_raises [OF Inl Some] by simp
    qed
  qed
qed



lemma write_combined_error:
  "write_error w out = Some e \<Longrightarrow> write_combined out h ms w = (Some e, w)"
  by (simp add: write_combined_def)

lemma write_combined_frame:
  "write_error (snd (write_combined out h ms w)) = write_error w \<and>
   glob (snd (write_combined out h ms w)) = glob w \<and>
   stdout_error (snd (write_combined out h ms w)) = stdout_error w \<and>
   (q \<noteq> out \<longrightarrow> files (snd (write_combined out h ms w)) q = files w q) \<and>
   prefix (console w) (console (snd (write_combined out h ms w)))"
proof -
  let ?w1 = "w\<lparr>files := (files w)(out := Readable [])\<rparr>"
  obtain r written w' where cf: "copy_files ms h ?w1 = (r, written, w')"
    by (cases "copy_files ms h ?w1")
  from copy_files_frame [of ms h ?w1] cf
  have fr: "files w' = (files w)(out := Readable [])" "write_error w' = write_error w"
    "glob w' = glob w" "stdout_error w' = stdout_error w" "prefix (console w) (console w')"
    by simp_all
  show ?thesis
    using cf fr by (simp add: write_combined_def split: option.splits)
qed



subsection \<open>The second loop\<close>

lemma write_groups_step:
  "write_groups c ((g, ms) # d) w =
     (let r1 = print (u ''Creating combined file for '' @ g @ u '' with '' @
                      str_nat (length ms) @ u '' files'') w
      in case fst r1 of
           Some e \<Rightarrow> r1
         | None \<Rightarrow>
             (let r2 = write_combined (group_output_file c g) (group_header g) ms (snd r1)
              in case fst r2 of Some e \<Rightarrow> r2 | None \<Rightarrow> write_groups c d (snd r2)))"
  by (simp add: Let_def split: prod.splits option.splits)

lemma write_groups_frame:
  "write_error (snd (write_groups c d w)) = write_error w \<and>
   glob (snd (write_groups c d w)) = glob w \<and>
   stdout_error (snd (write_groups c d w)) = stdout_error w \<and>
   (q \<notin> group_output_file c ` fst ` set d \<longrightarrow> files (snd (write_groups c d w)) q = files w q) \<and>
   prefix (console w) (console (snd (write_groups c d w)))"
proof (induction d arbitrary: w)
  case Nil
  show ?case by simp
next
  case (Cons a d)
  obtain g ms where a: "a = (g, ms)" by (cases a)
  let ?r1 = "print (u ''Creating combined file for '' @ g @ u '' with '' @
                      str_nat (length ms) @ u '' files'') w"
  let ?r2 = "write_combined (group_output_file c g) (group_header g) ms (snd ?r1)"
  have p1: "prefix (console w) (console (snd ?r1))" by (rule print_console)
  from write_combined_frame [of "group_output_file c g" "group_header g" ms "snd ?r1" q]
  have f2: "write_error (snd ?r2) = write_error w" "glob (snd ?r2) = glob w"
    "stdout_error (snd ?r2) = stdout_error w"
    "q \<noteq> group_output_file c g \<Longrightarrow> files (snd ?r2) q = files w q"
    "prefix (console (snd ?r1)) (console (snd ?r2))"
    by simp_all
  from p1 f2(5) have p2: "prefix (console w) (console (snd ?r2))" by (rule prefix_order.trans)
  show ?case
  proof (cases "fst ?r1")
    case (Some e)
    then have eq: "write_groups c ((g, ms) # d) w = ?r1"
      by (simp add: write_groups_step Let_def del: write_groups.simps)
    from p1 show ?thesis unfolding a eq by simp
  next
    case None
    show ?thesis
    proof (cases "fst ?r2")
      case (Some e)
      with None have eq: "write_groups c ((g, ms) # d) w = ?r2"
        by (simp add: write_groups_step Let_def del: write_groups.simps)
      from f2 p2 show ?thesis unfolding a eq by simp
    next
      case None2: None
      with None have eq: "write_groups c ((g, ms) # d) w = write_groups c d (snd ?r2)"
        by (simp add: write_groups_step Let_def del: write_groups.simps)
      from Cons.IH [of "snd ?r2"] f2 p2 show ?thesis
        unfolding a eq by (auto intro: prefix_order.trans)
    qed
  qed
qed



subsection \<open>The table and the output paths\<close>

lemma first_group_in_table: "first_group t s = Some g \<Longrightarrow> g \<in> fst ` set t"
  by (induction t s rule: first_group.induct) (auto split: if_splits)

lemma bucket_of_in_table: "bucket_of c w p = Some g \<Longrightarrow> g \<in> fst ` set (url_patterns c)"
  by (auto simp: bucket_of_def get_file_group_def split: option.splits if_splits
      dest: first_group_in_table)

lemma bucket_nonempty_in_table:
  assumes "bucket c w ps (Some g) \<noteq> []"
  shows "g \<in> fst ` set (url_patterns c)"
proof -
  from assms obtain p where "p \<in> set ps" "bucket_of c w p = Some g"
    by (auto simp: bucket_def filter_empty_conv)
  then show ?thesis by (simp add: bucket_of_in_table)
qed


lemma written_files_subset: "written_files c w \<subseteq> output_files c"
  by (auto simp: written_files_def output_files_def dest: bucket_nonempty_in_table)

lemma path_join_relative:
  "\<not> prefix (u ''/'') b \<Longrightarrow>
     path_join a b = (if a = [] \<or> suffix (u ''/'') a then a else a @ u ''/'') @ b"
  by (simp add: path_join_def)

lemma u_Nil: "u [] = []"
  by (simp add: u_def)

lemma u_Cons: "u (x # xs) = of_char x # u xs"
  by (simp add: u_def)

lemma default_table_names:
  "fst ` set (url_patterns (TextFileCombiner idir odir)) =
     {u ''core-nodes'', u ''app-nodes'', u ''trigger-nodes'', u ''cluster-nodes'', u ''credentials''}"
  by (simp add: TextFileCombiner_def)

lemma default_group_output_file:
  assumes "g \<in> fst ` set (url_patterns (TextFileCombiner idir odir))"
  shows "group_output_file (TextFileCombiner idir odir) g =
           (if odir = [] \<or> suffix (u ''/'') odir then odir else odir @ u ''/'') @ g @ u ''.txt''"
proof -
  from assms have "\<not> prefix (u ''/'') (g @ u ''.txt'')"
    unfolding default_table_names by (auto simp: u_Nil u_Cons)
  then show ?thesis
    by (simp add: group_output_file_def path_join_relative TextFileCombiner_def)
qed


lemma default_other_output_file:
  "other_output_file (TextFileCombiner idir odir) =
     (if odir = [] \<or> suffix (u ''/'') odir then odir else odir @ u ''/'') @ u ''other_content.txt''"
proof -
  have "\<not> prefix (u ''/'') (u ''other_content.txt'')"
    by (simp add: u_Nil u_Cons)
  then show ?thesis
    by (simp add: other_output_file_def path_join_relative TextFileCombiner_def)
qed

lemma default_inj_on:
  "inj_on (group_output_file (TextFileCombiner idir odir)) (fst ` set (url_patterns (TextFileCombiner idir odir)))"
  by (rule inj_onI) (simp add: default_group_output_file)

lemma default_other_not_group:
  "g \<in> fst ` set (url_patterns (TextFileCombiner idir odir)) \<Longrightarrow>
     other_output_file (TextFileCombiner idir odir) \<noteq> group_output_file (TextFileCombiner idir odir) g"
proof -
  assume g: "g \<in> fst ` set (url_patterns (TextFileCombiner idir odir))"
  then have "u ''other_content.txt'' \<noteq> g @ u ''.txt''"
    unfolding default_table_names by (auto simp: u_Nil u_Cons)
  then show ?thesis
    by (simp add: default_group_output_file [OF g] default_other_output_file)
qed

subsection \<open>The other file and the summary\<close>

lemma group_files_members:
  assumes "group_files c ps [] [] w0 = (None, d, ot, w1)"
  shows "(g, ms) \<in> set d \<longleftrightarrow> ms = bucket c w0 ps (Some g) \<and> ms \<noteq> []"
proof -
  from group_files_distinct [OF assms] have dist: "distinct (map fst d)" by simp
  from group_files_nonempty [OF assms] have ne: "\<forall>(k, vs) \<in> set d. vs \<noteq> []" by simp
  from group_files_buckets [OF assms, of g] have lk: "lookup d g = bucket c w0 ps (Some g)" by simp
  show ?thesis
  proof
    assume mem: "(g, ms) \<in> set d"
    with dist have "map_of d g = Some ms" by simp
    then have "lookup d g = ms" by (simp add: lookup_def)
    with lk ne mem show "ms = bucket c w0 ps (Some g) \<and> ms \<noteq> []" by auto
  next
    assume r: "ms = bucket c w0 ps (Some g) \<and> ms \<noteq> []"
    with lk have "lookup d g = ms" "lookup d g \<noteq> []" by auto
    then have "map_of d g = Some ms"
      by (cases "map_of d g") (simp_all add: lookup_def)
    then show "(g, ms) \<in> set d" by (rule map_of_SomeD)
  qed
qed

lemma print_groups_step:
  "print_groups ((g, ms) # d) w =
     (let r1 = print (u ''- '' @ g @ u '': '' @ str_nat (length ms) @ u '' files'') w
      in case fst r1 of Some e \<Rightarrow> r1 | None \<Rightarrow> print_groups d (snd r1))"
  by (simp add: Let_def split: prod.splits option.splits)

lemma print_groups_frame:
  "files (snd (print_groups d w)) = files w \<and>
   write_error (snd (print_groups d w)) = write_error w \<and>
   glob (snd (print_groups d w)) = glob w \<and>
   stdout_error (snd (print_groups d w)) = stdout_error w \<and>
   prefix (console w) (console (snd (print_groups d w)))"
proof (induction d arbitrary: w)
  case Nil
  show ?case by simp
next
  case (Cons a d)
  obtain g ms where a: "a = (g, ms)" by (cases a)
  let ?r1 = "print (u ''- '' @ g @ u '': '' @ str_nat (length ms) @ u '' files'') w"
  have p1: "prefix (console w) (console (snd ?r1))" by (rule print_console)
  show ?case
  proof (cases "fst ?r1")
    case (Some e)
    then have eq: "print_groups ((g, ms) # d) w = ?r1"
      by (simp add: print_groups_step Let_def del: print_groups.simps)
    from p1 show ?thesis unfolding a eq by simp
  next
    case None
    then have eq: "print_groups ((g, ms) # d) w = print_groups d (snd ?r1)"
      by (simp add: print_groups_step Let_def del: print_groups.simps)
    from Cons.IH [of "snd ?r1"] p1 show ?thesis
      unfolding a eq by (auto intro: prefix_order.trans)
  qed
qed


lemma print_summary_unfold:
  "print_summary d ot w =
     (let r1 = print ([newline] @ u ''Combination complete. Summary:'') w
      in case fst r1 of
           Some e \<Rightarrow> r1
         | None \<Rightarrow>
             (let r2 = print_groups d (snd r1)
              in case fst r2 of
                   Some e \<Rightarrow> r2
                 | None \<Rightarrow>
                     print (u ''- other_content: '' @ str_nat (length ot) @ u '' files'') (snd r2)))"
  by (simp add: print_summary_def Let_def split: prod.splits option.splits)

lemma print_summary_frame:
  "files (snd (print_summary d ot w)) = files w \<and>
   write_error (snd (print_summary d ot w)) = write_error w \<and>
   glob (snd (print_summary d ot w)) = glob w \<and>
   stdout_error (snd (print_summary d ot w)) = stdout_error w \<and>
   prefix (console w) (console (snd (print_summary d ot w)))"
proof -
  let ?r1 = "print ([newline] @ u ''Combination complete. Summary:'') w"
  let ?r2 = "print_groups d (snd ?r1)"
  let ?r3 = "print (u ''- other_content: '' @ str_nat (length ot) @ u '' files'') (snd ?r2)"
  have p1: "prefix (console w) (console (snd ?r1))" by (rule print_console)
  from print_groups_frame [of d "snd ?r1"]
  have f2: "files (snd ?r2) = files w" "write_error (snd ?r2) = write_error w"
    "glob (snd ?r2) = glob w" "stdout_error (snd ?r2) = stdout_error w"
    "prefix (console (snd ?r1)) (console (snd ?r2))"
    by simp_all
  from p1 f2(5) have p2: "prefix (console w) (console (snd ?r2))" by (rule prefix_order.trans)
  have "prefix (console (snd ?r2)) (console (snd ?r3))" by (rule print_console)
  with p2 have p3: "prefix (console w) (console (snd ?r3))" by (rule prefix_order.trans)
  show ?thesis
    unfolding print_summary_unfold Let_def
    using p1 p2 p3 f2 by (simp split: option.splits)
qed


lemma write_other_unfold:
  "ot \<noteq> [] \<Longrightarrow>
     write_other c ot w =
       (let r1 = print (u ''Creating file for other content with '' @
                        str_nat (length ot) @ u '' files'') w
        in case fst r1 of
             Some e \<Rightarrow> r1
           | None \<Rightarrow> write_combined (other_output_file c) other_header ot (snd r1))"
  by (simp add: write_other_def Let_def split: prod.splits option.splits)

lemma write_other_Nil: "write_other c [] w = (None, w)"
  by (simp add: write_other_def)


lemma write_other_frame:
  "write_error (snd (write_other c ot w)) = write_error w \<and>
   glob (snd (write_other c ot w)) = glob w \<and>
   stdout_error (snd (write_other c ot w)) = stdout_error w \<and>
   (q \<noteq> other_output_file c \<or> ot = [] \<longrightarrow> files (snd (write_other c ot w)) q = files w q) \<and>
   prefix (console w) (console (snd (write_other c ot w)))"
proof (cases "ot = []")
  case True
  then show ?thesis by (simp add: write_other_Nil)
next
  case False
  let ?r1 = "print (u ''Creating file for other content with '' @
                     str_nat (length ot) @ u '' files'') w"
  let ?r2 = "write_combined (other_output_file c) other_header ot (snd ?r1)"
  have p1: "prefix (console w) (console (snd ?r1))" by (rule print_console)
  from write_combined_frame [of "other_output_file c" other_header ot "snd ?r1" q]
  have f2: "write_error (snd ?r2) = write_error w" "glob (snd ?r2) = glob w"
    "stdout_error (snd ?r2) = stdout_error w"
    "q \<noteq> other_output_file c \<Longrightarrow> files (snd ?r2) q = files w q"
    "prefix (console (snd ?r1)) (console (snd ?r2))"
    by simp_all
  from p1 f2(5) have p2: "prefix (console w) (console (snd ?r2))" by (rule prefix_order.trans)
  show ?thesis
    unfolding write_other_unfold [OF False] Let_def
    using False p1 p2 f2 by (simp split: option.splits)
qed


subsection \<open>The whole of combine_files\<close>

lemma classified_unfold:
  "classified c w =
     (let r0 = print (u ''Found '' @ str_nat (length (discovered c w)) @
                      u '' text files to process'') w
      in case fst r0 of
           Some e \<Rightarrow> (Some e, [], [], snd r0)
         | None \<Rightarrow> group_files c (discovered c w) [] [] (snd r0))"
  by (simp add: classified_def Let_def split: prod.splits option.splits)

lemma combine_files_unfold:
  assumes "classified c w = (r, d, ot, w1)"
  shows "combine_files c w =
           (case r of
              Some e \<Rightarrow> (Some e, w1)
            | None \<Rightarrow>
                (case fst (write_groups c d w1) of
                   Some e \<Rightarrow> write_groups c d w1
                 | None \<Rightarrow>
                     (case fst (write_other c ot (snd (write_groups c d w1))) of
                        Some e \<Rightarrow> write_other c ot (snd (write_groups c d w1))
                      | None \<Rightarrow>
                          print_summary d ot (snd (write_other c ot (snd (write_groups c d w1)))))))"
proof -
  obtain e2 w2 where r2: "write_groups c d w1 = (e2, w2)"
    by (cases "write_groups c d w1")
  obtain e3 w3 where r3: "write_other c ot w2 = (e3, w3)"
    by (cases "write_other c ot w2")
  show ?thesis
    using assms r2 r3
    by (cases r; cases e2; cases e3)
       (auto simp: combine_files_def classified_def discovered_def Let_def
             split: prod.splits option.splits)
qed

lemma classified_frame:
  assumes "classified c w = (r, d, ot, w1)"
  shows "files w1 = files w \<and> write_error w1 = write_error w \<and> glob w1 = glob w \<and>
         stdout_error w1 = stdout_error w \<and> prefix (console w) (console w1)"
proof -
  let ?r0 = "print (u ''Found '' @ str_nat (length (discovered c w)) @
                      u '' text files to process'') w"
  have p0: "prefix (console w) (console (snd ?r0))" by (rule print_console)
  show ?thesis
  proof (cases "fst ?r0")
    case (Some e)
    with assms have "w1 = snd ?r0" by (simp add: classified_unfold Let_def)
    with p0 show ?thesis by simp
  next
    case None
    with assms have "group_files c (discovered c w) [] [] (snd ?r0) = (r, d, ot, w1)"
      by (simp add: classified_unfold Let_def)
    from group_files_frame [OF this] p0 show ?thesis
      by (auto intro: prefix_order.trans)
  qed
qed

lemma classified_through:
  assumes "classified c w = (None, d, ot, w1)"
  shows "group_files c (discovered c w) [] []
           (snd (print (u ''Found '' @ str_nat (length (discovered c w)) @
                        u '' text files to process'') w)) = (None, d, ot, w1)"
proof -
  let ?r0 = "print (u ''Found '' @ str_nat (length (discovered c w)) @
                      u '' text files to process'') w"
  from assms have "fst ?r0 = None"
    by (cases "fst ?r0") (simp_all add: classified_unfold Let_def)
  with assms show ?thesis by (simp add: classified_unfold Let_def)
qed

lemma classified_other:
  assumes "classified c w = (None, d, ot, w1)"
  shows "ot = bucket c w (discovered c w) None"
proof -
  let ?w0 = "snd (print (u ''Found '' @ str_nat (length (discovered c w)) @
                      u '' text files to process'') w)"
  have b: "bucket c ?w0 ps b = bucket c w ps b" for ps b
    by (rule bucket_cong) simp
  from group_files_buckets [OF classified_through [OF assms]] show ?thesis
    by (simp add: b)
qed

lemma classified_member:
  assumes "classified c w = (None, d, ot, w1)"
  shows "(g, ms) \<in> set d \<longleftrightarrow> ms = bucket c w (discovered c w) (Some g) \<and> ms \<noteq> []"
proof -
  let ?w0 = "snd (print (u ''Found '' @ str_nat (length (discovered c w)) @
                      u '' text files to process'') w)"
  have b: "bucket c ?w0 ps b = bucket c w ps b" for ps b
    by (rule bucket_cong) simp
  from group_files_members [OF classified_through [OF assms], of g ms] show ?thesis
    by (simp add: b)
qed



lemma first_loop_keys:
  assumes "\<And>g ms. (g, ms) \<in> set d \<longleftrightarrow> ms = bucket c w ps (Some g) \<and> ms \<noteq> []"
  shows "fst ` set d = {g. bucket c w ps (Some g) \<noteq> []}"
proof (rule set_eqI)
  fix g
  show "g \<in> fst ` set d \<longleftrightarrow> g \<in> {g. bucket c w ps (Some g) \<noteq> []}"
  proof
    assume "g \<in> fst ` set d"
    then obtain ms where "(g, ms) \<in> set d" by auto
    with assms show "g \<in> {g. bucket c w ps (Some g) \<noteq> []}" by auto
  next
    assume "g \<in> {g. bucket c w ps (Some g) \<noteq> []}"
    with assms [of g "bucket c w ps (Some g)"] have "(g, bucket c w ps (Some g)) \<in> set d" by simp
    then show "g \<in> fst ` set d" by (rule image_eqI [rotated]) simp
  qed
qed

lemma classified_keys:
  "classified c w = (None, d, ot, w1) \<Longrightarrow>
     fst ` set d = {g. bucket c w (discovered c w) (Some g) \<noteq> []}"
  by (rule first_loop_keys) (rule classified_member)

lemma combine_files_frame:
  "write_error (snd (combine_files c w)) = write_error w \<and>
   glob (snd (combine_files c w)) = glob w \<and>
   stdout_error (snd (combine_files c w)) = stdout_error w \<and>
   (q \<notin> written_files c w \<longrightarrow> files (snd (combine_files c w)) q = files w q) \<and>
   prefix (console w) (console (snd (combine_files c w)))"
proof -
  obtain r d ot w1 where cl: "classified c w = (r, d, ot, w1)"
    by (cases "classified c w")
  from classified_frame [OF cl]
  have fr: "files w1 = files w" "write_error w1 = write_error w" "glob w1 = glob w"
    "stdout_error w1 = stdout_error w" "prefix (console w) (console w1)"
    by simp_all
  show ?thesis
  proof (cases r)
    case (Some e)
    then show ?thesis
      unfolding combine_files_unfold [OF cl] using fr by simp
  next
    case None
    note cl' = cl [unfolded None]
    let ?r2 = "write_groups c d w1"
    let ?r3 = "write_other c ot (snd ?r2)"
    let ?r4 = "print_summary d ot (snd ?r3)"
    have ot: "ot = bucket c w (discovered c w) None" using cl' by (rule classified_other)
    have keys: "fst ` set d = {g. bucket c w (discovered c w) (Some g) \<noteq> []}"
      using cl' by (rule classified_keys)
    have q2: "q \<notin> group_output_file c ` fst ` set d" if "q \<notin> written_files c w"
      using that unfolding keys by (auto simp: written_files_def)
    have q3: "q \<noteq> other_output_file c \<or> ot = []" if "q \<notin> written_files c w"
      using that unfolding ot by (auto simp: written_files_def)
    from write_groups_frame [of c d w1 q] fr q2
    have f2: "write_error (snd ?r2) = write_error w" "glob (snd ?r2) = glob w"
      "stdout_error (snd ?r2) = stdout_error w"
      "q \<notin> written_files c w \<Longrightarrow> files (snd ?r2) q = files w q"
      "prefix (console w) (console (snd ?r2))"
      by (auto intro: prefix_order.trans)
    from write_other_frame [of c ot "snd ?r2" q] f2 q3
    have f3: "write_error (snd ?r3) = write_error w" "glob (snd ?r3) = glob w"
      "stdout_error (snd ?r3) = stdout_error w"
      "q \<notin> written_files c w \<Longrightarrow> files (snd ?r3) q = files w q"
      "prefix (console w) (console (snd ?r3))"
      by (auto intro: prefix_order.trans)
    from print_summary_frame [of d ot "snd ?r3"] f3
    have f4: "write_error (snd ?r4) = write_error w" "glob (snd ?r4) = glob w"
      "stdout_error (snd ?r4) = stdout_error w"
      "q \<notin> written_files c w \<Longrightarrow> files (snd ?r4) q = files w q"
      "prefix (console w) (console (snd ?r4))"
      by (auto intro: prefix_order.trans)
    show ?thesis
      unfolding combine_files_unfold [OF cl] None
      using f2 f3 f4 by (simp split: option.splits)
  qed
qed





section \<open>The claims about get_file_group\<close>

lemma u_prefix: "prefix (u a) (u b) \<longleftrightarrow> prefix a b"
proof (induction a arbitrary: b)
  case Nil
  show ?case by (simp add: u_Nil)
next
  case (Cons x a)
  show ?case by (cases b) (simp_all add: u_Cons u_Nil Cons.IH)
qed

lemma u_eq: "u a = u b \<longleftrightarrow> a = b"
  unfolding u_def by (rule inj_map_eq_map) (rule injI, simp)

lemma u_not_Nil: "u (x # xs) \<noteq> []"
  by (simp add: u_Cons)

lemma default_url_patterns:
  "url_patterns (TextFileCombiner idir odir) =
     [(u ''core-nodes'', u ''https://docs.n8n.io/integrations/builtin/core-nodes/''),
      (u ''app-nodes'', u ''https://docs.n8n.io/integrations/builtin/app-nodes/''),
      (u ''trigger-nodes'', u ''https://docs.n8n.io/integrations/builtin/trigger-nodes/''),
      (u ''cluster-nodes'', u ''https://docs.n8n.io/integrations/builtin/cluster-nodes/''),
      (u ''credentials'', u ''https://docs.n8n.io/integrations/builtin/credentials/'')]"
  by (simp add: TextFileCombiner_def)

lemma first_group_find:
  "first_group t s = map_option fst (find (\<lambda>(g, p). prefix p s) t)"
  by (induction t s rule: first_group.induct) simp_all

lemma default_group_of_pattern:
  "get_file_group (TextFileCombiner idir odir)
     (Some (u ''https://docs.n8n.io/integrations/builtin/core-nodes/'')) = Some (u ''core-nodes'')"
  "get_file_group (TextFileCombiner idir odir)
     (Some (u ''https://docs.n8n.io/integrations/builtin/app-nodes/'')) = Some (u ''app-nodes'')"
  "get_file_group (TextFileCombiner idir odir)
     (Some (u ''https://docs.n8n.io/integrations/builtin/trigger-nodes/'')) = Some (u ''trigger-nodes'')"
  "get_file_group (TextFileCombiner idir odir)
     (Some (u ''https://docs.n8n.io/integrations/builtin/cluster-nodes/'')) = Some (u ''cluster-nodes'')"
  "get_file_group (TextFileCombiner idir odir)
     (Some (u ''https://docs.n8n.io/integrations/builtin/credentials/'')) = Some (u ''credentials'')"
  by (simp_all add: get_file_group_def default_url_patterns u_prefix u_not_Nil)

text \<open>
  Claim C3. \<open>get_file_group\<close> goes through the table of five groups in the order of its
  declaration and returns the name of the first group whose pattern is a prefix of the
  URL, character by character (\<open>find\<close> returns the first entry that satisfies the
  test); it returns \<open>None\<close> for no URL and when no pattern is a prefix. The second part
  says the same of any table and any URL that is not empty, so where two patterns are
  both prefixes of the URL the entry that stands first wins.
\<close>

theorem get_file_group_first_match:
  "get_file_group (TextFileCombiner idir odir) url =
     (case url of
        None \<Rightarrow> None
      | Some s \<Rightarrow>
          map_option fst
            (find (\<lambda>(g, p). prefix p s)
               [(u ''core-nodes'', u ''https://docs.n8n.io/integrations/builtin/core-nodes/''),
                (u ''app-nodes'', u ''https://docs.n8n.io/integrations/builtin/app-nodes/''),
                (u ''trigger-nodes'', u ''https://docs.n8n.io/integrations/builtin/trigger-nodes/''),
                (u ''cluster-nodes'', u ''https://docs.n8n.io/integrations/builtin/cluster-nodes/''),
                (u ''credentials'', u ''https://docs.n8n.io/integrations/builtin/credentials/'')])) \<and>
   (\<forall>c s. s \<noteq> [] \<longrightarrow>
      get_file_group c (Some s) = map_option fst (find (\<lambda>(g, p). prefix p s) (url_patterns c)))"
proof (intro conjI allI impI)
  show "get_file_group c (Some s) = map_option fst (find (\<lambda>(g, p). prefix p s) (url_patterns c))"
    if "s \<noteq> []" for c s
    using that by (simp add: get_file_group_def first_group_find)
  show "get_file_group (TextFileCombiner idir odir) url =
     (case url of
        None \<Rightarrow> None
      | Some s \<Rightarrow>
          map_option fst
            (find (\<lambda>(g, p). prefix p s)
               [(u ''core-nodes'', u ''https://docs.n8n.io/integrations/builtin/core-nodes/''),
                (u ''app-nodes'', u ''https://docs.n8n.io/integrations/builtin/app-nodes/''),
                (u ''trigger-nodes'', u ''https://docs.n8n.io/integrations/builtin/trigger-nodes/''),
                (u ''cluster-nodes'', u ''https://docs.n8n.io/integrations/builtin/cluster-nodes/''),
                (u ''credentials'', u ''https://docs.n8n.io/integrations/builtin/credentials/'')]))"
  proof (cases url)
    case None
    then show ?thesis by (simp add: get_file_group_def)
  next
    case (Some s)
    show ?thesis
    proof (cases "s = []")
      case True
      then show ?thesis
        by (simp add: Some get_file_group_def u_not_Nil)
    next
      case False
      then show ?thesis
        by (simp add: Some get_file_group_def first_group_find default_url_patterns)
    qed
  qed
qed

theorem get_file_group_first_match_witness:
  "get_file_group
     \<lparr>input_dir = [], output_dir = [],
      url_patterns = [(u ''parent'', u ''https://a/''), (u ''child'', u ''https://a/b/'')]\<rparr>
     (Some (u ''https://a/b/c'')) = Some (u ''parent'') \<and>
   get_file_group (TextFileCombiner [] [])
     (Some (u ''https://docs.n8n.io/integrations/builtin/app-nodes/foo'')) = Some (u ''app-nodes'') \<and>
   get_file_group (TextFileCombiner [] []) (Some (u ''http://docs.n8n.io/'')) = None"
proof -
  have ne: "u ''https://a/b/c'' \<noteq> []" by (rule u_not_Nil)
  note t = get_file_group_first_match [of "[]" "[]"]
  from t [THEN conjunct2, rule_format, OF ne]
  have "get_file_group
     \<lparr>input_dir = [], output_dir = [],
      url_patterns = [(u ''parent'', u ''https://a/''), (u ''child'', u ''https://a/b/'')]\<rparr>
     (Some (u ''https://a/b/c'')) = Some (u ''parent'')"
    by (simp add: u_prefix)
  moreover from t [THEN conjunct1, of "Some (u ''https://docs.n8n.io/integrations/builtin/app-nodes/foo'')"]
  have "get_file_group (TextFileCombiner [] [])
     (Some (u ''https://docs.n8n.io/integrations/builtin/app-nodes/foo'')) = Some (u ''app-nodes'')"
    by (simp add: u_prefix)
  moreover from t [THEN conjunct1, of "Some (u ''http://docs.n8n.io/'')"]
  have "get_file_group (TextFileCombiner [] []) (Some (u ''http://docs.n8n.io/'')) = None"
    by (simp add: u_prefix)
  ultimately show ?thesis by simp
qed

text \<open>
  Claim C8. A URL that is one of the five registered patterns itself, with nothing after
  it, is in that pattern's group: a pattern is a prefix of itself.
\<close>

theorem get_file_group_registered_prefix:
  assumes "(g, p) \<in> set (url_patterns (TextFileCombiner idir odir))"
  shows "get_file_group (TextFileCombiner idir odir) (Some p) = Some g"
proof -
  from assms consider
      "g = u ''core-nodes''" "p = u ''https://docs.n8n.io/integrations/builtin/core-nodes/''"
    | "g = u ''app-nodes''" "p = u ''https://docs.n8n.io/integrations/builtin/app-nodes/''"
    | "g = u ''trigger-nodes''" "p = u ''https://docs.n8n.io/integrations/builtin/trigger-nodes/''"
    | "g = u ''cluster-nodes''" "p = u ''https://docs.n8n.io/integrations/builtin/cluster-nodes/''"
    | "g = u ''credentials''" "p = u ''https://docs.n8n.io/integrations/builtin/credentials/''"
    unfolding default_url_patterns by auto
  then show ?thesis
    by cases (simp_all only: default_group_of_pattern)
qed

theorem get_file_group_registered_prefix_witness:
  "get_file_group (TextFileCombiner (u ''docs'') (u ''combined_docs''))
     (Some (u ''https://docs.n8n.io/integrations/builtin/credentials/'')) = Some (u ''credentials'')"
proof -
  have "(u ''credentials'', u ''https://docs.n8n.io/integrations/builtin/credentials/'')
          \<in> set (url_patterns (TextFileCombiner (u ''docs'') (u ''combined_docs'')))"
    by (simp add: default_url_patterns)
  from get_file_group_registered_prefix [OF this] show ?thesis .
qed

section \<open>Stripping and matching the first line\<close>








lemma rstrip_last: "rstrip s \<noteq> [] \<Longrightarrow> \<not> isspace (last (rstrip s))"
proof -
  assume ne: "rstrip s \<noteq> []"
  then have "dropWhile isspace (rev s) \<noteq> []" by (simp add: rstrip_def)
  then have "\<not> isspace (hd (dropWhile isspace (rev s)))" by (rule hd_dropWhile)
  moreover have "last (rstrip s) = hd (dropWhile isspace (rev s))"
    using ne by (simp add: rstrip_def last_rev)
  ultimately show ?thesis by simp
qed

lemma marker_last: "last (u ''Source URL: '') = 32" and marker_not_Nil: "u ''Source URL: '' \<noteq> []"
  by (simp_all add: u_Nil u_Cons)

lemma strip_not_marker: "strip line \<noteq> u ''Source URL: ''"
proof
  assume eq: "strip line = u ''Source URL: ''"
  then have "rstrip (lstrip line) \<noteq> []" by (simp add: strip_def marker_not_Nil)
  then have "\<not> isspace (last (rstrip (lstrip line)))" by (rule rstrip_last)
  with eq show False by (simp add: strip_def marker_last isspace_def)
qed



lemma re_match_source_url_not_empty: "re_match_source_url s = Some r \<Longrightarrow> r \<noteq> []"
  by (auto simp: re_match_source_url_def Let_def split: if_splits)

section \<open>Evaluating the example run\<close>

lemma u_append: "u (a @ b) = u a @ u b"
  by (simp add: u_def)

lemma example_files_simps:
  "example_files (u ''docs/a.txt'') =
     Readable (u ''Source URL: https://docs.n8n.io/integrations/builtin/core-nodes/x'' @ [newline] @ u ''HELLO'')"
  "example_files (u ''docs/b.txt'') =
     Readable (u ''Source URL: https://docs.n8n.io/integrations/builtin/credentials/y'' @ [newline] @ u ''WORLD'')"
  "example_files (u ''docs/c.txt'') = Readable (u ''no source line here'')"
  "example_files (u ''docs/d.txt'') =
     HeadOnly (u ''Source URL: https://docs.n8n.io/integrations/builtin/core-nodes/z'' @ [newline]) (u ''invalid start byte'')"
  "example_files (u ''docs/e.txt'') =
     Unreadable (u ''Permission denied'') (u ''Permission denied'')"
  "example_files (u ''docs/f.txt'') =
     Readable (u ''  Source URL: https://docs.n8n.io/integrations/builtin/app-nodes/foo'' @ [newline] @ u ''FOO'')"
  "example_files (u ''docs/g.txt'') = Readable (u ''Source URL: '' @ [newline] @ u ''BAR'')"
  "example_files (u ''combined_docs/trigger-nodes.txt'') = Readable (u ''left by an earlier run'')"
  by (simp_all add: example_files_def u_eq)

lemma example_world_simps:
  "files example_world = example_files"
  "write_error example_world = (\<lambda>p. None)"
  "stdout_error example_world = (\<lambda>line. None)"
  "console example_world = []"
  by (simp_all add: example_world_def)

lemmas eval_str = readline_def re_match_source_url_def strip_def lstrip_def rstrip_def isspace_def
  newline_def u_Nil u_Cons

lemma example_discovered:
  "discovered example_combiner example_world =
     [u ''docs/a.txt'', u ''docs/b.txt'', u ''docs/c.txt'', u ''docs/d.txt'',
      u ''docs/e.txt'', u ''docs/f.txt'', u ''docs/g.txt'']"
proof -
  have "path_join (u ''docs'') (u ''*.txt'') = u ''docs/*.txt''"
    by (simp add: path_join_def suffix_to_prefix u_Nil u_Cons)
  then show ?thesis
    by (simp add: discovered_def example_combiner_def TextFileCombiner_def example_world_def)
qed

lemma example_source_url:
  "source_url example_world (u ''docs/a.txt'') =
     Some (u ''https://docs.n8n.io/integrations/builtin/core-nodes/x'')"
  "source_url example_world (u ''docs/b.txt'') =
     Some (u ''https://docs.n8n.io/integrations/builtin/credentials/y'')"
  "source_url example_world (u ''docs/c.txt'') = None"
  "source_url example_world (u ''docs/d.txt'') =
     Some (u ''https://docs.n8n.io/integrations/builtin/core-nodes/z'')"
  "source_url example_world (u ''docs/e.txt'') = None"
  "source_url example_world (u ''docs/f.txt'') =
     Some (u ''https://docs.n8n.io/integrations/builtin/app-nodes/foo'')"
  "source_url example_world (u ''docs/g.txt'') = None"
  unfolding source_url_eq example_world_simps example_files_simps
  by (simp_all add: eval_str)

lemma example_bucket_of:
  "bucket_of example_combiner example_world (u ''docs/a.txt'') = Some (u ''core-nodes'')"
  "bucket_of example_combiner example_world (u ''docs/b.txt'') = Some (u ''credentials'')"
  "bucket_of example_combiner example_world (u ''docs/c.txt'') = None"
  "bucket_of example_combiner example_world (u ''docs/d.txt'') = Some (u ''core-nodes'')"
  "bucket_of example_combiner example_world (u ''docs/e.txt'') = None"
  "bucket_of example_combiner example_world (u ''docs/f.txt'') = Some (u ''app-nodes'')"
  "bucket_of example_combiner example_world (u ''docs/g.txt'') = None"
  unfolding bucket_of_def example_source_url example_combiner_def
  by (simp_all add: get_file_group_def default_url_patterns u_prefix u_not_Nil)

lemma example_buckets:
  "bucket example_combiner example_world (discovered example_combiner example_world)
     (Some (u ''core-nodes'')) =
     [(u ''docs/a.txt'', Some (u ''https://docs.n8n.io/integrations/builtin/core-nodes/x'')),
      (u ''docs/d.txt'', Some (u ''https://docs.n8n.io/integrations/builtin/core-nodes/z''))]"
  "bucket example_combiner example_world (discovered example_combiner example_world)
     (Some (u ''app-nodes'')) =
     [(u ''docs/f.txt'', Some (u ''https://docs.n8n.io/integrations/builtin/app-nodes/foo''))]"
  "bucket example_combiner example_world (discovered example_combiner example_world)
     (Some (u ''trigger-nodes'')) = []"
  "bucket example_combiner example_world (discovered example_combiner example_world)
     (Some (u ''cluster-nodes'')) = []"
  "bucket example_combiner example_world (discovered example_combiner example_world)
     (Some (u ''credentials'')) =
     [(u ''docs/b.txt'', Some (u ''https://docs.n8n.io/integrations/builtin/credentials/y''))]"
  "bucket example_combiner example_world (discovered example_combiner example_world) None =
     [(u ''docs/c.txt'', None), (u ''docs/e.txt'', None), (u ''docs/g.txt'', None)]"
  unfolding example_discovered bucket_def
  by (simp_all add: example_bucket_of example_source_url u_eq)

lemma example_output_paths:
  "group_output_file example_combiner (u ''core-nodes'') = u ''combined_docs/core-nodes.txt''"
  "group_output_file example_combiner (u ''app-nodes'') = u ''combined_docs/app-nodes.txt''"
  "group_output_file example_combiner (u ''trigger-nodes'') = u ''combined_docs/trigger-nodes.txt''"
  "group_output_file example_combiner (u ''cluster-nodes'') = u ''combined_docs/cluster-nodes.txt''"
  "group_output_file example_combiner (u ''credentials'') = u ''combined_docs/credentials.txt''"
  "other_output_file example_combiner = u ''combined_docs/other_content.txt''"
  by (simp_all add: group_output_file_def other_output_file_def example_combiner_def
        TextFileCombiner_def path_join_def suffix_to_prefix u_Nil u_Cons)

lemma example_output_files:
  "output_files example_combiner =
     {u ''combined_docs/core-nodes.txt'', u ''combined_docs/app-nodes.txt'',
      u ''combined_docs/trigger-nodes.txt'', u ''combined_docs/cluster-nodes.txt'',
      u ''combined_docs/credentials.txt'', u ''combined_docs/other_content.txt''}"
proof -
  have "fst ` set (url_patterns example_combiner) =
     {u ''core-nodes'', u ''app-nodes'', u ''trigger-nodes'', u ''cluster-nodes'', u ''credentials''}"
    by (simp add: example_combiner_def default_table_names)
  then show ?thesis
    by (simp add: output_files_def example_output_paths insert_commute)
qed




section \<open>The claims about get_source_url\<close>




text \<open>
  Claim C10. When the stripped first line is the marker with nothing after it
  (\<open>Source URL:\<close>, the space gone with the stripping), \<open>get_source_url\<close> returns
  \<open>None\<close>: the pattern needs the space and at least one character after it. The first
  loop of \<open>combine_files\<close>, once it is through, has put the file in \<open>other_files\<close>,
  with no URL, and in no group.
\<close>

theorem marker_without_url_is_other:
  assumes "open_readline (files w p) = Inr line"
    and "strip line = u ''Source URL:'' \<or> strip line = u ''Source URL: ''"
    and "group_files c ps [] [] w = (None, d, ot, w1)"
    and "p \<in> set ps"
  shows "fst (get_source_url w p) = Inr None \<and>
         (p, None) \<in> set ot \<and>
         (\<forall>(g, ms) \<in> set d. p \<notin> fst ` set ms) \<and>
         (\<forall>s r. re_match_source_url s = Some r \<longrightarrow> r \<noteq> [])"
proof -
  have "\<not> prefix (u ''Source URL: '') (u ''Source URL:'')"
    by (simp add: u_prefix)
  with assms(2) have m: "re_match_source_url (strip line) = None"
    by (auto simp: re_match_source_url_def strip_not_marker)
  with assms(1) have ret: "fst (get_source_url w p) = Inr None"
    by (simp add: get_source_url_def)
  then have url: "source_url w p = None"
    by (simp add: source_url_def)
  then have b: "bucket_of c w p = None"
    by (simp add: bucket_of_def get_file_group_def)
  from group_files_buckets [OF assms(3)] have "ot = bucket c w ps None" by simp
  with assms(4) url b have other: "(p, None) \<in> set ot"
    by (auto simp: bucket_def)
  have groups: "p \<notin> fst ` set ms" if "(g, ms) \<in> set d" for g ms
  proof
    assume "p \<in> fst ` set ms"
    moreover from that have "ms = bucket c w ps (Some g)"
      using group_files_members [OF assms(3), of g ms] by simp
    ultimately have "bucket_of c w p = Some g" by (auto simp: bucket_def)
    with b show False by simp
  qed
  from ret other groups show ?thesis
    by (auto dest: re_match_source_url_not_empty)
qed

theorem marker_without_url_is_other_witness:
  "fst (get_source_url example_world (u ''docs/g.txt'')) = Inr None \<and>
   group_files example_combiner [u ''docs/g.txt''] [] [] example_world =
     (None, [], [(u ''docs/g.txt'', None)], example_world)"
proof -
  have h1: "open_readline (files example_world (u ''docs/g.txt'')) = Inr (u ''Source URL: '' @ [newline])"
    unfolding example_world_simps example_files_simps by (simp add: eval_str)
  have h2: "strip (u ''Source URL: '' @ [newline]) = u ''Source URL:'' \<or>
            strip (u ''Source URL: '' @ [newline]) = u ''Source URL: ''"
    by (simp add: eval_str)
  have url: "get_source_url example_world (u ''docs/g.txt'') = (Inr None, example_world)"
    unfolding get_source_url_def example_world_simps example_files_simps by (simp add: eval_str)
  have h3: "group_files example_combiner [u ''docs/g.txt''] [] [] example_world =
     (None, [], [(u ''docs/g.txt'', None)], example_world)"
    by (simp add: url get_file_group_def)
  have h4: "u ''docs/g.txt'' \<in> set [u ''docs/g.txt'']" by simp
  from marker_without_url_is_other [OF h1 h2 h3 h4] h3 show ?thesis by simp
qed

section \<open>The files a run leaves alone\<close>

lemma default_group_file_not_written:
  assumes g: "g \<in> fst ` set (url_patterns (TextFileCombiner idir odir))"
    and empty: "bucket (TextFileCombiner idir odir) w (discovered (TextFileCombiner idir odir) w) (Some g) = []"
  shows "group_output_file (TextFileCombiner idir odir) g \<notin> written_files (TextFileCombiner idir odir) w"
proof
  let ?c = "TextFileCombiner idir odir"
  assume "group_output_file ?c g \<in> written_files ?c w"
  then consider g' where "group_output_file ?c g = group_output_file ?c g'"
      "bucket ?c w (discovered ?c w) (Some g') \<noteq> []"
    | "group_output_file ?c g = other_output_file ?c"
    unfolding written_files_def by blast
  then show False
  proof cases
    case 1
    from 1(2) have "g' \<in> fst ` set (url_patterns ?c)" by (rule bucket_nonempty_in_table)
    from inj_onD [OF default_inj_on 1(1) g this] have "g = g'" .
    with 1(2) empty show False by simp
  next
    case 2
    with default_other_not_group [OF g] show False by simp
  qed
qed

lemma default_other_file_not_written:
  assumes "bucket (TextFileCombiner idir odir) w (discovered (TextFileCombiner idir odir) w) None = []"
  shows "other_output_file (TextFileCombiner idir odir) \<notin> written_files (TextFileCombiner idir odir) w"
proof
  let ?c = "TextFileCombiner idir odir"
  assume "other_output_file ?c \<in> written_files ?c w"
  with assms obtain g' where "other_output_file ?c = group_output_file ?c g'"
      "bucket ?c w (discovered ?c w) (Some g') \<noteq> []"
    unfolding written_files_def by blast
  moreover from this(2) have "g' \<in> fst ` set (url_patterns ?c)" by (rule bucket_nonempty_in_table)
  ultimately show False using default_other_not_group [of g' idir odir] by simp
qed

text \<open>
  Claim C9. A run of \<open>combine_files\<close> changes no file but the ones it opens for writing:
  \<open><output_dir>/<group>.txt\<close> for the groups that got a member in this run, and
  \<open><output_dir>/other_content.txt\<close> when \<open>other_files\<close> is not empty. Every other path
  keeps its file, whether the run returns or is left by an exception. So the output
  file of a group with no member in this run stays as an earlier run left it, the same
  holds of \<open>other_content.txt\<close> when \<open>other_files\<close> is empty, and a discovered input
  file that is not itself such an output path is only read. The model has no
  operation that deletes a file.
\<close>

theorem combine_files_changes_only_written_files:
  "(\<forall>q. q \<notin> written_files (TextFileCombiner idir odir) w \<longrightarrow>
        files (snd (combine_files (TextFileCombiner idir odir) w)) q = files w q) \<and>
   written_files (TextFileCombiner idir odir) w \<subseteq> output_files (TextFileCombiner idir odir) \<and>
   (\<forall>g \<in> fst ` set (url_patterns (TextFileCombiner idir odir)).
      bucket (TextFileCombiner idir odir) w (discovered (TextFileCombiner idir odir) w) (Some g) = [] \<longrightarrow>
      files (snd (combine_files (TextFileCombiner idir odir) w))
        (group_output_file (TextFileCombiner idir odir) g) =
      files w (group_output_file (TextFileCombiner idir odir) g)) \<and>
   (bucket (TextFileCombiner idir odir) w (discovered (TextFileCombiner idir odir) w) None = [] \<longrightarrow>
      files (snd (combine_files (TextFileCombiner idir odir) w))
        (other_output_file (TextFileCombiner idir odir)) =
      files w (other_output_file (TextFileCombiner idir odir))) \<and>
   (\<forall>p \<in> set (discovered (TextFileCombiner idir odir) w).
      p \<notin> output_files (TextFileCombiner idir odir) \<longrightarrow>
      files (snd (combine_files (TextFileCombiner idir odir) w)) p = files w p)"
proof -
  let ?c = "TextFileCombiner idir odir"
  let ?w' = "snd (combine_files ?c w)"
  have frame: "files ?w' q = files w q" if "q \<notin> written_files ?c w" for q
    using combine_files_frame [of ?c w q] that by simp
  have sub: "written_files ?c w \<subseteq> output_files ?c" by (rule written_files_subset)
  have stale: "files ?w' (group_output_file ?c g) = files w (group_output_file ?c g)"
    if "g \<in> fst ` set (url_patterns ?c)" "bucket ?c w (discovered ?c w) (Some g) = []" for g
    using that by (intro frame default_group_file_not_written)
  have other: "files ?w' (other_output_file ?c) = files w (other_output_file ?c)"
    if "bucket ?c w (discovered ?c w) None = []"
    using that by (intro frame default_other_file_not_written)
  have inputs: "files ?w' p = files w p" if "p \<notin> output_files ?c" for p
    using that sub by (intro frame) blast
  from frame sub stale other inputs show ?thesis by blast
qed

theorem combine_files_changes_only_written_files_witness:
  "files (snd (combine_files example_combiner example_world)) (u ''combined_docs/trigger-nodes.txt'') =
     Readable (u ''left by an earlier run'') \<and>
   files (snd (combine_files example_combiner example_world)) (u ''docs/a.txt'') =
     files example_world (u ''docs/a.txt'')"
proof -
  note t = combine_files_changes_only_written_files [of "u ''docs''" "u ''combined_docs''" example_world,
      folded example_combiner_def]
  have g: "u ''trigger-nodes'' \<in> fst ` set (url_patterns example_combiner)"
    by (simp add: example_combiner_def default_table_names)
  from t g example_buckets(3)
  have "files (snd (combine_files example_combiner example_world))
          (group_output_file example_combiner (u ''trigger-nodes'')) =
        files example_world (group_output_file example_combiner (u ''trigger-nodes''))"
    by blast
  then have stale: "files (snd (combine_files example_combiner example_world))
      (u ''combined_docs/trigger-nodes.txt'') = Readable (u ''left by an earlier run'')"
    by (simp add: example_output_paths example_world_simps example_files_simps)
  have "u ''docs/a.txt'' \<in> set (discovered example_combiner example_world)"
    by (simp add: example_discovered)
  moreover have "u ''docs/a.txt'' \<notin> output_files example_combiner"
    by (simp add: example_output_files u_eq)
  ultimately have "files (snd (combine_files example_combiner example_world)) (u ''docs/a.txt'') =
     files example_world (u ''docs/a.txt'')"
    using t by blast
  with stale show ?thesis by simp
qed

section \<open>The run as a whole\<close>


lemma classified_urls:
  assumes "classified c w = (None, d, ot, w1)" and "p \<in> set (discovered c w)"
  shows "fst (get_source_url w p) = Inr (source_url w p)"
proof -
  let ?w0 = "snd (print (u ''Found '' @ str_nat (length (discovered c w)) @
               u '' text files to process'') w)"
  from group_files_urls [OF classified_through [OF assms(1)] assms(2)]
  have "fst (get_source_url ?w0 p) = Inr (source_url ?w0 p)" .
  moreover have "source_url ?w0 p = source_url w p"
    by (rule source_url_cong) simp
  moreover have "fst (get_source_url ?w0 p) = fst (get_source_url w p)"
    by (simp add: get_source_url_def print_def split: sum.splits option.splits)
  ultimately show ?thesis by simp
qed



section \<open>The claims about the output files\<close>














section \<open>Running twice\<close>




section \<open>A log line that cannot be printed\<close>

lemma strict_utf8_append:
  "strict_utf8 (a @ b) = (case strict_utf8 a of Some e \<Rightarrow> Some e | None \<Rightarrow> strict_utf8 b)"
  by (simp add: strict_utf8_def)

lemma strict_utf8_u: "strict_utf8 (u s) = None"
proof -
  have "of_char c < (256 :: nat)" for c :: char
    by (cases c) (simp add: of_char_def)
  then have "\<not> (55296 \<le> (of_char c :: nat) \<and> (of_char c :: nat) \<le> 57343)" for c :: char
    by (simp add: not_le less_le_trans [of _ 256 55296])
  then show ?thesis
    by (simp add: strict_utf8_def u_def list_ex_iff)
qed

lemma strict_utf8_surrogate_path: "strict_utf8 surrogate_path = Some (u ''surrogates not allowed'')"
  by (simp add: strict_utf8_def surrogate_path_def)

lemma str_nat_1: "str_nat (Suc 0) = u ''1''"
  by (simp add: str_nat.simps u_Nil u_Cons)

lemma strict_utf8_lines:
  "strict_utf8 (u ''Found '' @ u ''1'' @ u '' text files to process'') = None"
  "strict_utf8 (u ''Creating file for other content with '' @ u ''1'' @ u '' files'') = None"
  "strict_utf8 (u ''Error reading file '' @ surrogate_path @ u '': '' @ e) =
     Some (u ''surrogates not allowed'')"
  "strict_utf8 (u ''Error processing file '' @ surrogate_path @ u '': '' @ e) =
     Some (u ''surrogates not allowed'')"
  by (simp_all add: strict_utf8_append strict_utf8_u strict_utf8_surrogate_path)

lemma surrogate_discovered:
  "discovered example_combiner surrogate_world = [surrogate_path]"
  "discovered example_combiner surrogate_head_world = [surrogate_path]"
proof -
  have "path_join (u ''docs'') (u ''*.txt'') = u ''docs/*.txt''"
    by (simp add: path_join_def suffix_to_prefix u_Nil u_Cons)
  then show "discovered example_combiner surrogate_world = [surrogate_path]"
    "discovered example_combiner surrogate_head_world = [surrogate_path]"
    by (simp_all add: discovered_def example_combiner_def TextFileCombiner_def
          surrogate_world_def surrogate_head_world_def)
qed

lemma surrogate_path_not_output: "surrogate_path \<noteq> u ''combined_docs/other_content.txt''"
  by (simp add: surrogate_path_def u_Nil u_Cons)

lemma u_lines:
  "u ''Found '' @ u ''1'' @ u '' text files to process'' = u ''Found 1 text files to process''"
  "u ''Creating file for other content with '' @ u ''1'' @ u '' files'' =
     u ''Creating file for other content with 1 files''"
  by (simp_all add: u_Nil u_Cons)

text \<open>
  Claim C6. In the second example run the one discovered file cannot be opened, and
  the line the handler of \<open>get_source_url\<close> prints for it has the lone surrogate of
  the path in it: \<open>print\<close> raises, and the exception leaves \<open>get_source_url\<close> and
  \<open>combine_files\<close> after the first line of the run, with no file written. In the third
  run the first line of the file can be read and the file is put in \<open>other_files\<close>, and
  \<open>read()\<close> raises when the file is copied; again \<open>print\<close> raises in the handler, and the
  exception leaves \<open>combine_files\<close>: \<open>other_content.txt\<close> is left with its header only and
  no summary is printed. So a file that cannot be read can end the run.
\<close>

theorem read_failure_ends_run:
  "combine_files example_combiner surrogate_world =
     (Some (u ''surrogates not allowed''),
      surrogate_world\<lparr>console := [u ''Found 1 text files to process'']\<rparr>) \<and>
   combine_files example_combiner surrogate_head_world =
     (Some (u ''surrogates not allowed''),
      surrogate_head_world
        \<lparr>files := (files surrogate_head_world)
                    (u ''combined_docs/other_content.txt'' := Readable other_header),
         console := [u ''Found 1 text files to process'',
                     u ''Creating file for other content with 1 files'']\<rparr>)"
proof
  have d: "glob surrogate_world (path_join (input_dir example_combiner) (u ''*.txt'')) = [surrogate_path]"
    using surrogate_discovered(1) by (simp add: discovered_def)
  show "combine_files example_combiner surrogate_world =
     (Some (u ''surrogates not allowed''),
      surrogate_world\<lparr>console := [u ''Found 1 text files to process'']\<rparr>)"
    unfolding combine_files_def d Let_def
    by (simp add: print_def get_source_url_def str_nat_1 strict_utf8_u strict_utf8_lines u_lines
          surrogate_world_def)
next
  have d: "glob surrogate_head_world (path_join (input_dir example_combiner) (u ''*.txt'')) = [surrogate_path]"
    using surrogate_discovered(2) by (simp add: discovered_def)
  have line: "strip (readline (u ''no source line here'' @ [newline])) = u ''no source line here''"
    by (simp add: eval_str)
  have url: "re_match_source_url (u ''no source line here'') = None"
    by (simp add: re_match_source_url_def u_prefix)
  show "combine_files example_combiner surrogate_head_world =
     (Some (u ''surrogates not allowed''),
      surrogate_head_world
        \<lparr>files := (files surrogate_head_world)
                    (u ''combined_docs/other_content.txt'' := Readable other_header),
         console := [u ''Found 1 text files to process'',
                     u ''Creating file for other content with 1 files'']\<rparr>)"
    unfolding combine_files_def d Let_def
    by (simp add: print_def get_source_url_def get_file_group_def write_other_def
          write_combined_def example_output_paths surrogate_path_not_output line url
          str_nat_1 strict_utf8_u strict_utf8_lines u_lines surrogate_head_world_def)
qed

text \<open>Both runs are left by the exception: \<open>combine_files\<close> does not return.\<close>

theorem read_failure_ends_run_witness:
  "fst (combine_files example_combiner surrogate_world) \<noteq> None \<and>
   fst (combine_files example_combiner surrogate_head_world) \<noteq> None"
  using read_failure_ends_run by simp

end
